theory Spec2Isabelle
  imports Main
begin

section \<open>The data of worker/handler/handler.go\<close>

text \<open>
  The handler package keeps one \<open>Handler\<close> per lambda name in a \<open>HandlerSet\<close>.
  The registry manager, the sandbox factory, the sandboxes, the pool manager, the
  LRU of paused handlers, the clock and the file system are collaborators: what a call
  to one of them answers is an argument of the model (an oracle), and every call is
  recorded, in order, in a trace of events.

  Left out of the records: \<open>Handler.hset\<close> (the back pointer; the HandlerSet is passed
  along instead), \<open>Handler.code\<close> and \<open>HandlerSet.config\<close> (never read or written), and
  \<open>HandlerSet.regMgr\<close>, \<open>sbFactory\<close> and \<open>lru\<close> (collaborators).

  \<open>runners\<close> and the three hit counters are Go integers of 64 bits. They are modelled
  as unbounded integers: each is raised by one per admitted request, so the 64-bit
  bound is out of reach of any run.
\<close>

datatype HandlerState = Unitialized | Running | Paused | Stopped

datatype error =
    External string   \<comment> \<open>an error value handed back by a collaborator (its message)\<close>
  | ErrorsNew string  \<comment> \<open>\<open>errors.New(msg)\<close>, made in handler.go itself\<close>

datatype Sandbox = Sandbox (sb_id: nat) (is_ContainerSandbox: bool)

datatype ForkServer = ForkServer nat

datatype SandboxChannel = SandboxChannel nat

datatype PoolManager = PoolManager

record Handler =
  name :: string
  mutex :: bool                 \<comment> \<open>\<open>sync.Mutex\<close>: True while locked\<close>
  sandbox :: "Sandbox option"   \<comment> \<open>None is the nil interface\<close>
  lastPull :: "nat option"      \<comment> \<open>\<open>*time.Time\<close>\<close>
  state :: HandlerState
  runners :: int
  codeDir :: string
  pkgs :: "string list"
  sandboxDir :: string
  fs :: "ForkServer option"     \<comment> \<open>\<open>*policy.ForkServer\<close>\<close>
  usage :: int

text \<open>
  The map \<open>handlers\<close> holds pointers: \<open>handlers k = None\<close> when the key is absent,
  \<open>Some None\<close> when the key is present with a nil pointer, \<open>Some (Some p)\<close> when it
  holds the address \<open>p\<close> of a Handler.
\<close>

record HandlerSet =
  set_mutex :: bool
  handlers :: "string \<Rightarrow> nat option option"
  poolMgr :: "PoolManager option"
  workerDir :: string
  pipMirror :: string
  hhits :: int
  ihits :: int
  misses :: int

datatype mutex_id = RegistryMutex | HandlerMutex string

datatype counter = Hhits | Ihits | Misses

datatype event =
    Lock mutex_id
  | Unlock mutex_id
  | Pull string
  | Time_Now
  | MkdirAll string
  | Create string string string
  | Sb_State nat
  | Sb_Start nat
  | Sb_Unpause nat
  | Sb_Pause nat
  | Sb_Stop nat
  | Sb_Remove nat
  | Sb_Channel nat
  | Provision nat string "string list"
  | AddInt64 counter
  | Stat string
  | Time_Since
  | Time_Sleep nat              \<comment> \<open>milliseconds\<close>
  | Lru_Remove string
  | Lru_Add string
  | Log_Printf string
  | Log_State string HandlerState
  | Go_nuke string
  | Go_killOrphans

text \<open>
  How a call ends: it returns, it panics (a nil dereference), or it does not return
  (it waits for a mutex that is never released, or its polling loop has not ended
  within the observations supplied).
\<close>

datatype 'a outcome = Returns 'a | Panics | Hangs

datatype stat_result = StatOk | NotExist | StatOtherError

text \<open>
  The collaborators of one \<open>RunStart\<close> call. \<open>polls\<close> lists, for the successive turns of
  the readiness loop, what \<open>os.Stat\<close> answered and the nanoseconds \<open>time.Since(start)\<close>
  read right after it.
\<close>

record rs_env =
  regMgr_Pull :: "string \<Rightarrow> string + (string \<times> string list)"
  time_Now :: nat
  os_MkdirAll :: "string \<Rightarrow> string option"
  sbFactory_Create :: "string \<Rightarrow> string \<Rightarrow> string \<Rightarrow> string + Sandbox"
  sb_State :: "Sandbox \<Rightarrow> HandlerState \<times> string option"
  sb_Start :: "Sandbox \<Rightarrow> string option"
  sb_Unpause :: "Sandbox \<Rightarrow> string option"
  poolMgr_Provision :: "Sandbox \<Rightarrow> string \<Rightarrow> string list \<Rightarrow> ForkServer option \<times> bool \<times> string option"
  polls :: "(stat_result \<times> int) list"
  sb_Channel :: "Sandbox \<Rightarrow> string + SandboxChannel"

record frame =
  H :: Handler
  HS :: HandlerSet
  trace :: "event list"

type_synonym ret = "(error + SandboxChannel) outcome"

section \<open>Handler.RunStart\<close>

definition emit :: "event \<Rightarrow> frame \<Rightarrow> frame" where
  "emit e s = s\<lparr>trace := trace s @ [e]\<rparr>"

definition and_then :: "frame \<times> ret option \<Rightarrow> (frame \<Rightarrow> frame \<times> ret option) \<Rightarrow> frame \<times> ret option" where
  "and_then r f = (case r of (s, None) \<Rightarrow> f s | (s, Some x) \<Rightarrow> (s, Some x))"

text \<open>
  A collaborator's error is passed on to the caller as it is: \<open>passes e\<close>. An error made
  by \<open>errors.New\<close> in this file: \<open>fails msg\<close>.
\<close>

definition passes :: "string \<Rightarrow> ret option" where
  "passes e = Some (Returns (Inl (External e)))"

definition fails :: "string \<Rightarrow> ret option" where
  "fails msg = Some (Returns (Inl (ErrorsNew msg)))"

text \<open>Lines 169-179: get code if needed.\<close>

definition get_code :: "rs_env \<Rightarrow> frame \<Rightarrow> frame \<times> ret option" where
  "get_code env s =
     (if lastPull (H s) = None then
        (let s1 = emit (Pull (name (H s))) s in
         case regMgr_Pull env (name (H s)) of
           Inl e \<Rightarrow> (s1, passes e)
         | Inr (cd, ps) \<Rightarrow>
             ((emit Time_Now s1)\<lparr>H := (H s1)\<lparr>lastPull := Some (time_Now env),
                                                codeDir := cd, pkgs := ps\<rparr>\<rparr>, None))
      else (s, None))"

text \<open>Lines 197-206: a newly created sandbox could be in any state; let it run.\<close>

definition let_it_run :: "rs_env \<Rightarrow> Sandbox \<Rightarrow> frame \<Rightarrow> frame \<times> ret option" where
  "let_it_run env sb s =
     (if state (H s) = Stopped then
        (case sb_Start env sb of
           Some e \<Rightarrow> (emit (Sb_Start (sb_id sb)) s, passes e)
         | None \<Rightarrow> (emit (Sb_Start (sb_id sb)) s, None))
      else if state (H s) = Paused then
        (case sb_Unpause env sb of
           Some e \<Rightarrow> (emit (Sb_Unpause (sb_id sb)) s, passes e)
         | None \<Rightarrow> (emit (Sb_Unpause (sb_id sb)) s, None))
      else (s, None))"

text \<open>Lines 208-224: the pool manager's fork server, and the import-hit or miss count.\<close>

definition count_hit :: "bool \<Rightarrow> frame \<Rightarrow> frame" where
  "count_hit hit s =
     (if hit then (emit (AddInt64 Ihits) s)\<lparr>HS := (HS s)\<lparr>ihits := ihits (HS s) + 1\<rparr>\<rparr>
      else (emit (AddInt64 Misses) s)\<lparr>HS := (HS s)\<lparr>misses := misses (HS s) + 1\<rparr>\<rparr>)"

definition provision :: "rs_env \<Rightarrow> Sandbox \<Rightarrow> frame \<Rightarrow> frame \<times> ret option" where
  "provision env sb s =
     (case poolMgr (HS s) of
        None \<Rightarrow> (count_hit False s, None)
      | Some pm \<Rightarrow>
          if \<not> is_ContainerSandbox sb
          then (s, fails ''forkenter only supported with ContainerSandbox'')
          else
            (case poolMgr_Provision env sb (sandboxDir (H s)) (pkgs (H s)) of
               (f, hit, perr) \<Rightarrow>
                 (let s1 = (emit (Provision (sb_id sb) (sandboxDir (H s)) (pkgs (H s))) s)
                             \<lparr>H := (H s)\<lparr>fs := f\<rparr>\<rparr>
                  in case perr of
                       Some e \<Rightarrow> (s1, passes e)
                     | None \<Rightarrow> (count_hit hit s1, None))))"

text \<open>
  Lines 230-235: \<open>for ok := true; ok; ok = os.IsNotExist(err)\<close>. Each turn stats the
  socket path, then reads the clock; \<open>time.Since(start).Seconds() > 45\<close> holds exactly
  when the duration exceeds \<open>45 * 10^9\<close> nanoseconds. The loop goes on only while the
  stat error is "does not exist".
\<close>

definition deadline_ns :: int where
  "deadline_ns = 45 * 10 ^ 9"

fun wait_for_sock :: "string \<Rightarrow> (stat_result \<times> int) list \<Rightarrow> frame \<Rightarrow> frame \<times> ret option" where
  "wait_for_sock p [] s = (s, Some Hangs)"
| "wait_for_sock p ((r, d) # obs) s =
     (let s1 = emit Time_Since (emit (Stat p) s) in
      if d > deadline_ns
      then (s1, fails ''handler server failed to initialize after 30s'')
      else if r = NotExist then wait_for_sock p obs s1
      else (s1, None))"

text \<open>
  Lines 182-235: create sandbox if needed. Line 229 reads the clock (\<open>start\<close>) before the
  readiness loop.
\<close>

definition create_sandbox :: "rs_env \<Rightarrow> frame \<Rightarrow> frame \<times> ret option" where
  "create_sandbox env s =
     (let h = H s; s1 = emit (MkdirAll (sandboxDir h)) s in
      case os_MkdirAll env (sandboxDir h) of
        Some e \<Rightarrow> (s1, passes e)
      | None \<Rightarrow>
          (let s2 = emit (Create (codeDir h) (sandboxDir h) (pipMirror (HS s))) s1 in
           case sbFactory_Create env (codeDir h) (sandboxDir h) (pipMirror (HS s)) of
             Inl e \<Rightarrow> (s2, passes e)
           | Inr sb \<Rightarrow>
               (case sb_State env sb of
                  (st, serr) \<Rightarrow>
                    (let s3 = (emit (Sb_State (sb_id sb)) s2)
                                \<lparr>H := h\<lparr>sandbox := Some sb, state := st\<rparr>\<rparr>
                     in case serr of
                          Some e \<Rightarrow> (s3, passes e)
                        | None \<Rightarrow>
                            and_then (and_then (let_it_run env sb s3) (provision env sb))
                              (\<lambda>s4. wait_for_sock (sandboxDir h @ ''/ol.sock'') (polls env)
                                      (emit Time_Now s4))))))"

text \<open>Lines 237-242: unpause if paused.\<close>

definition unpause_existing :: "rs_env \<Rightarrow> Sandbox \<Rightarrow> frame \<Rightarrow> frame \<times> ret option" where
  "unpause_existing env sb s =
     (let s1 = (emit (AddInt64 Hhits) s)\<lparr>HS := (HS s)\<lparr>hhits := hhits (HS s) + 1\<rparr>\<rparr>;
          s2 = emit (Sb_Unpause (sb_id sb)) s1
      in case sb_Unpause env sb of
           Some e \<Rightarrow> (s2, passes e)
         | None \<Rightarrow> (emit (Lru_Remove (name (H s))) s2, None))"

text \<open>Lines 243-245: the sandbox exists and is not paused.\<close>

definition hit_existing :: "frame \<Rightarrow> frame \<times> ret option" where
  "hit_existing s =
     ((emit (AddInt64 Hhits) s)\<lparr>HS := (HS s)\<lparr>hhits := hhits (HS s) + 1\<rparr>\<rparr>, None)"

definition ensure_sandbox :: "rs_env \<Rightarrow> frame \<Rightarrow> frame \<times> ret option" where
  "ensure_sandbox env s =
     (case sandbox (H s) of
        None \<Rightarrow> create_sandbox env s
      | Some sb \<Rightarrow>
          if state (H s) = Paused then unpause_existing env sb s else hit_existing s)"

text \<open>Lines 247-251: admit the request and return the sandbox's channel.\<close>

definition admit :: "rs_env \<Rightarrow> frame \<Rightarrow> frame \<times> ret" where
  "admit env s =
     (let s1 = s\<lparr>H := (H s)\<lparr>state := Running, runners := runners (H s) + 1\<rparr>\<rparr>;
          s2 = emit (Log_Printf ''handler hits: %v, import hits: %v, misses: %v'') s1
      in case sandbox (H s2) of
           None \<Rightarrow> (s2, Panics)
         | Some sb \<Rightarrow>
             (emit (Sb_Channel (sb_id sb)) s2,
              Returns (case sb_Channel env sb of Inl e \<Rightarrow> Inl (External e) | Inr ch \<Rightarrow> Inr ch)))"

text \<open>\<open>defer h.mutex.Unlock()\<close>: runs when the call returns or panics.\<close>

definition unlock_handler :: "frame \<Rightarrow> frame" where
  "unlock_handler s = (emit (Unlock (HandlerMutex (name (H s)))) s)\<lparr>H := (H s)\<lparr>mutex := False\<rparr>\<rparr>"

definition leave :: "frame \<times> 'a outcome \<Rightarrow> 'a outcome \<times> frame" where
  "leave r = (case r of (s, Hangs) \<Rightarrow> (Hangs, s) | (s, x) \<Rightarrow> (x, unlock_handler s))"

text \<open>Lines 168-245: everything \<open>RunStart\<close> does before it admits the request.\<close>

definition prepare :: "rs_env \<Rightarrow> frame \<Rightarrow> frame \<times> ret option" where
  "prepare env s = and_then (get_code env s) (ensure_sandbox env)"

definition RunStart :: "rs_env \<Rightarrow> HandlerSet \<Rightarrow> Handler \<Rightarrow> ret \<times> frame" where
  "RunStart env hs h =
     (if mutex h
      then (Hangs, \<lparr>H = h, HS = hs, trace = [Lock (HandlerMutex (name h))]\<rparr>)
      else
        leave
          (case prepare env
                  \<lparr>H = h\<lparr>mutex := True\<rparr>, HS = hs, trace = [Lock (HandlerMutex (name h))]\<rparr> of
             (s, Some x) \<Rightarrow> (s, x)
           | (s, None) \<Rightarrow> admit env s))"

section \<open>Handler.RunFinish\<close>

text \<open>Lines 257-274. The argument is what \<open>sandbox.Pause()\<close> answers.\<close>

definition RunFinish :: "(Sandbox \<Rightarrow> string option) \<Rightarrow> HandlerSet \<Rightarrow> Handler \<Rightarrow> unit outcome \<times> frame" where
  "RunFinish sb_Pause hs h =
     (if mutex h
      then (Hangs, \<lparr>H = h, HS = hs, trace = [Lock (HandlerMutex (name h))]\<rparr>)
      else
        leave
          (let s = \<lparr>H = h\<lparr>mutex := True, runners := runners h - 1\<rparr>, HS = hs,
                    trace = [Lock (HandlerMutex (name h))]\<rparr>
           in if runners (H s) = 0 then
                (case sandbox (H s) of
                   None \<Rightarrow> (s, Panics)
                 | Some sb \<Rightarrow>
                     (let s1 = emit (Sb_Pause (sb_id sb)) s;
                          s2 = (case sb_Pause sb of
                                  Some e \<Rightarrow> emit (Log_Printf ''Could not pause %v!  Error: %v'') s1
                                | None \<Rightarrow> s1);
                          s3 = s2\<lparr>H := (H s2)\<lparr>state := Paused\<rparr>\<rparr>
                      in (emit (Lru_Add (name (H s3))) s3, Returns ())))
              else (s, Returns ())))"

section \<open>Handler.nuke and Handler.Sandbox\<close>

text \<open>Lines 277-281: the three calls on the sandbox, whose errors are dropped.\<close>

definition nuke :: "Handler \<Rightarrow> event list outcome" where
  "nuke h =
     (case sandbox h of
        None \<Rightarrow> Panics
      | Some sb \<Rightarrow> Returns [Sb_Unpause (sb_id sb), Sb_Stop (sb_id sb), Sb_Remove (sb_id sb)])"

definition Handler_Sandbox :: "Handler \<Rightarrow> Sandbox option" where
  "Handler_Sandbox h = sandbox h"

section \<open>The HandlerSet and the Handlers it points to\<close>

text \<open>
  Handlers are heap objects: \<open>Get\<close> hands out a pointer, and the map, the callers and
  the reaper share the object behind it. \<open>heap\<close> maps an address to the Handler stored
  there; \<open>next_addr\<close> is the next address \<open>&Handler{...}\<close> allocates.

  Every operation below is one atomic step. A mutex found locked at the start of a step
  is therefore held by a call that has not returned, and in this file no such call ever
  releases it (\<open>killOrphans\<close> never returns, and a call that hangs stays hung): \<open>Lock\<close> on
  it does not return.
\<close>

record world =
  hset :: HandlerSet
  heap :: "nat \<Rightarrow> Handler option"
  next_addr :: nat




text \<open>Lines 110-117: the Handler that \<open>Get\<close> allocates; the fields it leaves out are zero.\<close>

definition new_handler :: "string \<Rightarrow> string \<Rightarrow> Handler" where
  "new_handler nm dir =
     \<lparr>name = nm, mutex = False, sandbox = None, lastPull = None, state = Unitialized,
      runners = 0, codeDir = [], pkgs = [], sandboxDir = dir, fs = None, usage = 0\<rparr>"




section \<open>HandlerSet.killOrphans\<close>

datatype reaper_status =
    Scanning                \<comment> \<open>still looping: the scans supplied are used up\<close>
  | Blocked mutex_id        \<comment> \<open>inside \<open>Lock\<close> of a mutex that is never released\<close>
  | Nil_dereference         \<comment> \<open>panic: \<open>handler.mutex\<close> of a nil handler\<close>
  | Waiting_for_runners     \<comment> \<open>in the loop of lines 137-141\<close>

text \<open>
  Lines 130-145, the \<open>range\<close> loop of one scan. Line 133 locks the registry mutex again;
  line 134 stores nil under the handler's name; the loop of lines 137-141 unlocks the
  handler, sleeps a millisecond and locks it again while \<open>runners\<close> is positive, and
  within one atomic step nobody else changes \<open>runners\<close>.
\<close>

fun scan_handlers :: "string list \<Rightarrow> world \<Rightarrow> event list \<Rightarrow> reaper_status \<times> world \<times> event list" where
  "scan_handlers [] w tr = (Scanning, w, tr)"
| "scan_handlers (k # ks) w tr =
     (case handlers (hset w) k of
        None \<Rightarrow> scan_handlers ks w tr
      | Some None \<Rightarrow> (Nil_dereference, w, tr)
      | Some (Some p) \<Rightarrow>
          (case heap w p of
             None \<Rightarrow> (Nil_dereference, w, tr)
           | Some handler \<Rightarrow>
               if mutex handler
               then (Blocked (HandlerMutex (name handler)), w,
                     tr @ [Lock (HandlerMutex (name handler))])
               else if sandbox handler \<noteq> None \<and> fs handler = None then
                 (if set_mutex (hset w)
                  then (Blocked RegistryMutex,
                        w\<lparr>heap := (heap w)(p := Some (handler\<lparr>mutex := True\<rparr>))\<rparr>,
                        tr @ [Lock (HandlerMutex (name handler)), Lock RegistryMutex])
                  else if runners handler > 0
                  then (Waiting_for_runners,
                        w\<lparr>hset := (hset w)\<lparr>handlers := (handlers (hset w))(name handler := Some None)\<rparr>\<rparr>,
                        tr @ [Lock (HandlerMutex (name handler)), Lock RegistryMutex,
                              Unlock RegistryMutex, Unlock (HandlerMutex (name handler)),
                              Time_Sleep 1])
                  else scan_handlers ks
                         (w\<lparr>hset := (hset w)\<lparr>handlers := (handlers (hset w))(name handler := Some None)\<rparr>\<rparr>)
                         (tr @ [Lock (HandlerMutex (name handler)), Lock RegistryMutex,
                                Unlock RegistryMutex, Go_nuke (name handler),
                                Unlock (HandlerMutex (name handler))]))
               else scan_handlers ks w
                      (tr @ [Lock (HandlerMutex (name handler)),
                             Unlock (HandlerMutex (name handler))])))"

text \<open>
  Lines 124-148. The argument lists the visiting order of each scan to come; the loop
  has no exit, so the function never returns. \<open>defer h.mutex.Unlock()\<close> of line 128
  would run when \<open>killOrphans\<close> returns: it never runs, and the registry mutex locked at
  line 127 stays locked.
\<close>

fun killOrphans :: "string list list \<Rightarrow> world \<Rightarrow> event list \<Rightarrow> reaper_status \<times> world \<times> event list" where
  "killOrphans [] w tr = (Scanning, w, tr)"
| "killOrphans (order # later) w tr =
     (if set_mutex (hset w)
      then (Blocked RegistryMutex, w, tr @ [Time_Sleep 5, Lock RegistryMutex])
      else
        (case scan_handlers order (w\<lparr>hset := (hset w)\<lparr>set_mutex := True\<rparr>\<rparr>)
                (tr @ [Time_Sleep 5, Lock RegistryMutex]) of
           (Scanning, w1, tr1) \<Rightarrow> killOrphans later w1 tr1
         | (st, w1, tr1) \<Rightarrow> (st, w1, tr1)))"

section \<open>Runs\<close>






text \<open>
  The calls on one Handler, in the order its mutex serialises them. The number carried
  along counts the \<open>RunStart\<close> calls that returned a channel and have not been matched by
  a \<open>RunFinish\<close> yet; a \<open>RunFinish\<close> with nothing to match makes the run ill-formed (None).
\<close>

datatype hop = Start rs_env | Finish "Sandbox \<Rightarrow> string option"

fun is_channel :: "ret \<Rightarrow> bool" where
  "is_channel (Returns (Inr ch)) = True"
| "is_channel r = False"

fun run_ops :: "hop list \<Rightarrow> Handler \<times> HandlerSet \<times> nat \<Rightarrow> (Handler \<times> HandlerSet \<times> nat) option" where
  "run_ops [] c = Some c"
| "run_ops (Start env # ops) (h, hs, n) =
     (case RunStart env hs h of
        (r, s) \<Rightarrow> run_ops ops (H s, HS s, if is_channel r then Suc n else n))"
| "run_ops (Finish pz # ops) (h, hs, n) =
     (if n = 0 then None
      else
        (case RunFinish pz hs h of
           (r, s) \<Rightarrow> run_ops ops (H s, HS s, if r = Returns () then n - 1 else n)))"

text \<open>A step that stops the call early does so with an error or by hanging.\<close>

definition quiet :: "ret option \<Rightarrow> bool" where
  "quiet r \<longleftrightarrow> r \<noteq> Some Panics \<and> (\<forall>ch. r \<noteq> Some (Returns (Inr ch)))"

text \<open>
  What holds of a Handler between calls, \<open>n\<close> being the number of admitted requests that
  have not finished.
\<close>

definition handler_inv :: "Handler \<Rightarrow> nat \<Rightarrow> bool" where
  "handler_inv h n \<longleftrightarrow>
     int n \<le> runners h \<and>
     (0 < runners h \<longrightarrow> state h = Running) \<and>
     (sandbox h = None \<longrightarrow> runners h = 0 \<and> state h = Unitialized) \<and>
     (sandbox h \<noteq> None \<longrightarrow> lastPull h \<noteq> None)"

section \<open>Concrete collaborators, for the examples\<close>

definition ex_env :: rs_env where
  "ex_env =
     \<lparr>regMgr_Pull = (\<lambda>n. Inr (''/registry/'' @ n, [])),
      time_Now = 7,
      os_MkdirAll = (\<lambda>d. None),
      sbFactory_Create = (\<lambda>c d m. Inr (Sandbox 1 True)),
      sb_State = (\<lambda>sb. (Stopped, None)),
      sb_Start = (\<lambda>sb. None),
      sb_Unpause = (\<lambda>sb. None),
      poolMgr_Provision = (\<lambda>sb d ps. (Some (ForkServer 1), False, None)),
      polls = [(NotExist, 1000000), (StatOk, 2000000)],
      sb_Channel = (\<lambda>sb. Inr (SandboxChannel 1))\<rparr>"

definition ex_hset :: HandlerSet where
  "ex_hset =
     \<lparr>set_mutex = False, handlers = (\<lambda>k. None), poolMgr = None, workerDir = ''/w'',
      pipMirror = ''mirror'', hhits = 0, ihits = 0, misses = 0\<rparr>"


definition ex_fresh :: Handler where
  "ex_fresh = new_handler ''f'' ''/w/handlers/f/sandbox''"

text \<open>The Handler \<open>ex_fresh\<close> after one \<open>RunStart\<close>, and after the \<open>RunFinish\<close> that follows.\<close>

definition ex_running :: Handler where
  "ex_running =
     \<lparr>name = ''f'', mutex = False, sandbox = Some (Sandbox 1 True), lastPull = Some 7,
      state = Running, runners = 1, codeDir = ''/registry/f'', pkgs = [],
      sandboxDir = ''/w/handlers/f/sandbox'', fs = None, usage = 0\<rparr>"

definition ex_paused :: Handler where
  "ex_paused = ex_running\<lparr>state := Paused, runners := 0\<rparr>"


text \<open>As \<open>ex_env\<close>, but the registry does not know the lambda; the factory fails.\<close>

definition ex_env_nopull :: rs_env where
  "ex_env_nopull = ex_env\<lparr>regMgr_Pull := (\<lambda>n. Inl ''no such lambda'')\<rparr>"

definition ex_env_nocreate :: rs_env where
  "ex_env_nocreate = ex_env\<lparr>sbFactory_Create := (\<lambda>c d m. Inl ''no docker'')\<rparr>"

text \<open>
  What holds of the registry between operations: no key holds a nil pointer, a pointer
  held under a key leads to a Handler of that name, and nothing is stored at or beyond
  the next address to allocate.
\<close>

definition wf_world :: "world \<Rightarrow> bool" where
  "wf_world w \<longleftrightarrow>
     (\<forall>k. handlers (hset w) k \<noteq> Some None) \<and>
     (\<forall>k p. handlers (hset w) k = Some (Some p) \<longrightarrow> (\<exists>h. heap w p = Some h \<and> name h = k)) \<and>
     (\<forall>p. next_addr w \<le> p \<longrightarrow> heap w p = None)"

text \<open>The same Handlers at the same addresses, up to fields other than the name.\<close>

definition same_objects :: "world \<Rightarrow> world \<Rightarrow> bool" where
  "same_objects w w' \<longleftrightarrow>
     next_addr w' = next_addr w \<and> (\<forall>p. map_option name (heap w' p) = map_option name (heap w p))"




definition ex_world0 :: world where
  "ex_world0 =
     \<lparr>hset = \<lparr>set_mutex = False, handlers = (\<lambda>k. None), poolMgr = Some PoolManager,
              workerDir = ''/w'', pipMirror = ''mirror'', hhits = 0, ihits = 0, misses = 0\<rparr>,
      heap = (\<lambda>p. None), next_addr = 0\<rparr>"


definition ex_orphan :: Handler where
  "ex_orphan =
     \<lparr>name = ''f'', mutex = False, sandbox = Some (Sandbox 1 True), lastPull = Some 7,
      state = Stopped, runners = 0, codeDir = ''/registry/f'', pkgs = [],
      sandboxDir = ''/w/handlers/f/sandbox'', fs = None, usage = 0\<rparr>"

definition ex_world_orphan :: world where
  "ex_world_orphan =
     \<lparr>hset = \<lparr>set_mutex = False, handlers = (\<lambda>k. None)(''f'' := Some (Some 0)),
              poolMgr = Some PoolManager, workerDir = ''/w'', pipMirror = ''mirror'',
              hhits = 0, ihits = 0, misses = 0\<rparr>,
      heap = (\<lambda>p. None)(0 := Some ex_orphan), next_addr = 1\<rparr>"

text \<open>A trace in which nobody sleeps.\<close>

definition no_sleep :: "event list \<Rightarrow> bool" where
  "no_sleep tr \<longleftrightarrow> (\<forall>n. Time_Sleep n \<notin> set tr)"

section \<open>Basic facts\<close>

lemma emit_simps:
  "H (emit e s) = H s" "HS (emit e s) = HS s" "trace (emit e s) = trace s @ [e]"
  by (simp_all add: emit_def)


lemma and_then_if: "and_then r f = (if snd r = None then f (fst r) else r)"
  by (cases r) (auto simp: and_then_def split: option.splits)

lemma passes_simps [simp]: "passes e \<noteq> None" "passes e \<noteq> Some Hangs" "passes e \<noteq> Some Panics"
  "passes e \<noteq> Some (Returns (Inr ch))"
  by (simp_all add: passes_def)

lemma fails_simps [simp]: "fails e \<noteq> None" "fails e \<noteq> Some Hangs" "fails e \<noteq> Some Panics"
  "fails e \<noteq> Some (Returns (Inr ch))"
  by (simp_all add: fails_def)


lemma quiet_simps [simp]: "quiet None" "quiet (Some Hangs)" "quiet (passes e)" "quiet (fails m)"
  by (simp_all add: quiet_def)

lemma wait_for_sock_H [simp]: "H (fst (wait_for_sock p obs s)) = H s"
  by (induction p obs s rule: wait_for_sock.induct) (simp_all add: Let_def emit_simps)

lemma wait_for_sock_HS [simp]: "HS (fst (wait_for_sock p obs s)) = HS s"
  by (induction p obs s rule: wait_for_sock.induct) (simp_all add: Let_def emit_simps)

lemma wait_for_sock_quiet [simp]: "quiet (snd (wait_for_sock p obs s))"
  by (induction p obs s rule: wait_for_sock.induct) (simp_all add: Let_def)

lemma get_code_HS [simp]: "HS (fst (get_code env s)) = HS s"
  by (simp add: get_code_def Let_def emit_simps split: sum.split prod.split)

lemma get_code_keeps [simp]:
  "name (H (fst (get_code env s))) = name (H s)"
  "mutex (H (fst (get_code env s))) = mutex (H s)"
  "sandbox (H (fst (get_code env s))) = sandbox (H s)"
  "state (H (fst (get_code env s))) = state (H s)"
  "runners (H (fst (get_code env s))) = runners (H s)"
  "sandboxDir (H (fst (get_code env s))) = sandboxDir (H s)"
  "fs (H (fst (get_code env s))) = fs (H s)"
  "usage (H (fst (get_code env s))) = usage (H s)"
  by (simp_all add: get_code_def Let_def emit_simps split: sum.split prod.split)

lemma get_code_quiet [simp]: "quiet (snd (get_code env s))"
  by (simp add: get_code_def Let_def split: sum.split prod.split)

lemma get_code_pulled: "snd (get_code env s) = None \<Longrightarrow> lastPull (H (fst (get_code env s))) \<noteq> None"
  by (simp add: get_code_def Let_def emit_simps split: sum.splits prod.splits if_splits)

lemma get_code_failed: "snd (get_code env s) \<noteq> None \<Longrightarrow> H (fst (get_code env s)) = H s"
  by (simp add: get_code_def Let_def emit_simps split: sum.splits prod.splits if_splits)

lemma get_code_skip: "lastPull (H s) \<noteq> None \<Longrightarrow> get_code env s = (s, None)"
  by (auto simp: get_code_def)

lemma let_it_run_H [simp]: "H (fst (let_it_run env sb s)) = H s"
  by (simp add: let_it_run_def emit_simps split: option.split)

lemma let_it_run_HS [simp]: "HS (fst (let_it_run env sb s)) = HS s"
  by (simp add: let_it_run_def emit_simps split: option.split)

lemma let_it_run_quiet [simp]: "quiet (snd (let_it_run env sb s))"
  by (simp add: let_it_run_def split: option.split)

lemma provision_keeps [simp]:
  "name (H (fst (provision env sb s))) = name (H s)"
  "mutex (H (fst (provision env sb s))) = mutex (H s)"
  "sandbox (H (fst (provision env sb s))) = sandbox (H s)"
  "lastPull (H (fst (provision env sb s))) = lastPull (H s)"
  "state (H (fst (provision env sb s))) = state (H s)"
  "runners (H (fst (provision env sb s))) = runners (H s)"
  "codeDir (H (fst (provision env sb s))) = codeDir (H s)"
  "pkgs (H (fst (provision env sb s))) = pkgs (H s)"
  "sandboxDir (H (fst (provision env sb s))) = sandboxDir (H s)"
  "usage (H (fst (provision env sb s))) = usage (H s)"
  by (simp_all add: provision_def count_hit_def Let_def emit_simps split: option.split prod.split)

lemma provision_HS_keeps [simp]:
  "set_mutex (HS (fst (provision env sb s))) = set_mutex (HS s)"
  "handlers (HS (fst (provision env sb s))) = handlers (HS s)"
  "poolMgr (HS (fst (provision env sb s))) = poolMgr (HS s)"
  "workerDir (HS (fst (provision env sb s))) = workerDir (HS s)"
  "pipMirror (HS (fst (provision env sb s))) = pipMirror (HS s)"
  "hhits (HS (fst (provision env sb s))) = hhits (HS s)"
  by (simp_all add: provision_def count_hit_def Let_def emit_simps split: option.split prod.split)

lemma provision_quiet [simp]: "quiet (snd (provision env sb s))"
  by (simp add: provision_def Let_def split: option.split prod.split)

lemma create_sandbox_keeps [simp]:
  "name (H (fst (create_sandbox env s))) = name (H s)"
  "mutex (H (fst (create_sandbox env s))) = mutex (H s)"
  "lastPull (H (fst (create_sandbox env s))) = lastPull (H s)"
  "runners (H (fst (create_sandbox env s))) = runners (H s)"
  "codeDir (H (fst (create_sandbox env s))) = codeDir (H s)"
  "sandboxDir (H (fst (create_sandbox env s))) = sandboxDir (H s)"
  "usage (H (fst (create_sandbox env s))) = usage (H s)"
  by (simp_all add: create_sandbox_def and_then_if Let_def emit_simps
      split: option.split sum.split prod.split)

lemma create_sandbox_HS_keeps [simp]:
  "set_mutex (HS (fst (create_sandbox env s))) = set_mutex (HS s)"
  "handlers (HS (fst (create_sandbox env s))) = handlers (HS s)"
  "poolMgr (HS (fst (create_sandbox env s))) = poolMgr (HS s)"
  "workerDir (HS (fst (create_sandbox env s))) = workerDir (HS s)"
  "pipMirror (HS (fst (create_sandbox env s))) = pipMirror (HS s)"
  "hhits (HS (fst (create_sandbox env s))) = hhits (HS s)"
  by (simp_all add: create_sandbox_def and_then_if Let_def emit_simps
      split: option.split sum.split prod.split)

lemma create_sandbox_quiet [simp]: "quiet (snd (create_sandbox env s))"
  by (simp add: create_sandbox_def and_then_if Let_def split: option.split sum.split prod.split)

lemma create_sandbox_done:
  "snd (create_sandbox env s) = None \<Longrightarrow> sandbox (H (fst (create_sandbox env s))) \<noteq> None"
  by (simp add: create_sandbox_def and_then_if Let_def emit_simps
      split: option.splits sum.splits prod.splits if_splits)

lemma create_sandbox_none:
  "sandbox (H s) = None \<Longrightarrow> sandbox (H (fst (create_sandbox env s))) = None \<Longrightarrow>
   state (H (fst (create_sandbox env s))) = state (H s)"
  by (simp add: create_sandbox_def and_then_if Let_def emit_simps
      split: option.splits sum.splits prod.splits if_splits)


lemma unpause_existing_H [simp]: "H (fst (unpause_existing env sb s)) = H s"
  by (simp add: unpause_existing_def Let_def emit_simps split: option.split)

lemma unpause_existing_quiet [simp]: "quiet (snd (unpause_existing env sb s))"
  by (simp add: unpause_existing_def Let_def split: option.split)

lemma hit_existing_H [simp]: "H (fst (hit_existing s)) = H s" "snd (hit_existing s) = None"
  by (simp_all add: hit_existing_def emit_simps)

lemma ensure_sandbox_keeps [simp]:
  "name (H (fst (ensure_sandbox env s))) = name (H s)"
  "mutex (H (fst (ensure_sandbox env s))) = mutex (H s)"
  "lastPull (H (fst (ensure_sandbox env s))) = lastPull (H s)"
  "runners (H (fst (ensure_sandbox env s))) = runners (H s)"
  "codeDir (H (fst (ensure_sandbox env s))) = codeDir (H s)"
  "sandboxDir (H (fst (ensure_sandbox env s))) = sandboxDir (H s)"
  "usage (H (fst (ensure_sandbox env s))) = usage (H s)"
  by (simp_all add: ensure_sandbox_def split: option.split)

lemma ensure_sandbox_quiet [simp]: "quiet (snd (ensure_sandbox env s))"
  by (simp add: ensure_sandbox_def split: option.split)

lemma ensure_sandbox_done:
  "snd (ensure_sandbox env s) = None \<Longrightarrow> sandbox (H (fst (ensure_sandbox env s))) \<noteq> None"
  using create_sandbox_done[of env s]
  by (auto simp: ensure_sandbox_def split: option.splits)

lemma ensure_sandbox_none:
  "sandbox (H (fst (ensure_sandbox env s))) = None \<Longrightarrow>
   state (H (fst (ensure_sandbox env s))) = state (H s) \<and> sandbox (H s) = None"
  by (auto simp: ensure_sandbox_def create_sandbox_none split: option.splits if_splits)

lemma ensure_sandbox_existing:
  "sandbox (H s) \<noteq> None \<Longrightarrow> H (fst (ensure_sandbox env s)) = H s"
  by (auto simp: ensure_sandbox_def split: option.splits)

lemma ensure_sandbox_running:
  "sandbox (H s) \<noteq> None \<Longrightarrow> state (H s) \<noteq> Paused \<Longrightarrow> snd (ensure_sandbox env s) = None"
  by (auto simp: ensure_sandbox_def split: option.splits)

lemma prepare_keeps [simp]:
  "name (H (fst (prepare env s))) = name (H s)"
  "mutex (H (fst (prepare env s))) = mutex (H s)"
  "runners (H (fst (prepare env s))) = runners (H s)"
  "sandboxDir (H (fst (prepare env s))) = sandboxDir (H s)"
  "usage (H (fst (prepare env s))) = usage (H s)"
  by (simp_all add: prepare_def and_then_if)

lemma prepare_quiet [simp]: "quiet (snd (prepare env s))"
  by (simp add: prepare_def and_then_if)

lemma prepare_done:
  "snd (prepare env s) = None \<Longrightarrow> sandbox (H (fst (prepare env s))) \<noteq> None"
  using ensure_sandbox_done[of env "fst (get_code env s)"]
  by (auto simp: prepare_def and_then_if split: if_splits)

lemma prepare_none:
  "sandbox (H (fst (prepare env s))) = None \<Longrightarrow>
   state (H (fst (prepare env s))) = state (H s) \<and> sandbox (H s) = None"
  using ensure_sandbox_none[of env "fst (get_code env s)"]
  by (auto simp: prepare_def and_then_if split: if_splits)

lemma prepare_existing:
  "sandbox (H s) \<noteq> None \<Longrightarrow> lastPull (H s) \<noteq> None \<Longrightarrow> H (fst (prepare env s)) = H s"
  by (simp add: prepare_def and_then_if get_code_skip ensure_sandbox_existing)

lemma prepare_running:
  "sandbox (H s) \<noteq> None \<Longrightarrow> lastPull (H s) \<noteq> None \<Longrightarrow> state (H s) \<noteq> Paused \<Longrightarrow>
   snd (prepare env s) = None"
  by (simp add: prepare_def and_then_if get_code_skip ensure_sandbox_running)

lemma prepare_lastPull:
  "sandbox (H s) = None \<Longrightarrow> sandbox (H (fst (prepare env s))) \<noteq> None \<Longrightarrow>
   lastPull (H (fst (prepare env s))) \<noteq> None"
  using get_code_pulled[of env s] get_code_failed[of env s]
  by (auto simp: prepare_def and_then_if split: if_splits)

lemma admit_H [simp]:
  "H (fst (admit env s)) = (H s)\<lparr>state := Running, runners := runners (H s) + 1\<rparr>"
  by (simp add: admit_def Let_def emit_simps split: option.split)

lemma admit_ret:
  "snd (admit env s) =
     (case sandbox (H s) of
        None \<Rightarrow> Panics
      | Some sb \<Rightarrow> Returns (case sb_Channel env sb of Inl e \<Rightarrow> Inl (External e) | Inr ch \<Rightarrow> Inr ch))"
  by (simp add: admit_def Let_def emit_simps split: option.split)

lemma leave_simps [simp]:
  "fst (leave p) = snd p"
  "H (snd (leave p)) = (if snd p = Hangs then H (fst p) else (H (fst p))\<lparr>mutex := False\<rparr>)"
  "HS (snd (leave p)) = HS (fst p)"
  by (cases p; simp add: leave_def unlock_handler_def emit_simps split: outcome.split)+


section \<open>The invariant of a Handler\<close>

lemma RunStart_locked:
  "mutex h \<Longrightarrow> RunStart env hs h = (Hangs, \<lparr>H = h, HS = hs, trace = [Lock (HandlerMutex (name h))]\<rparr>)"
  by (simp add: RunStart_def)

lemma RunStart_unfold:
  "\<not> mutex h \<Longrightarrow>
   RunStart env hs h =
     leave (let P = prepare env \<lparr>H = h\<lparr>mutex := True\<rparr>, HS = hs, trace = [Lock (HandlerMutex (name h))]\<rparr>
            in case snd P of None \<Rightarrow> admit env (fst P) | Some x \<Rightarrow> (fst P, x))"
  by (simp add: RunStart_def Let_def case_prod_beta)

lemma admit_not_Hangs [simp]: "snd (admit env s) \<noteq> Hangs"
  by (simp add: admit_ret split: option.split)

lemma RunStart_inv:
  assumes inv: "handler_inv h n" and run: "RunStart env hs h = (r, s)"
  shows "handler_inv (H s) (if is_channel r then Suc n else n)"
proof (cases "mutex h")
  case True
  with run inv show ?thesis by (auto simp: RunStart_locked)
next
  case False
  define s0 where "s0 = \<lparr>H = h\<lparr>mutex := True\<rparr>, HS = hs, trace = [Lock (HandlerMutex (name h))]\<rparr>"
  define P where "P = prepare env s0"
  have H0: "H s0 = h\<lparr>mutex := True\<rparr>" by (simp add: s0_def)
  have eq: "(r, s) = leave (case snd P of None \<Rightarrow> admit env (fst P) | Some x \<Rightarrow> (fst P, x))"
    unfolding P_def s0_def
    using run RunStart_unfold[OF False, of env hs] by (simp add: Let_def)
  have run0: "runners (H (fst P)) = runners h"
    by (simp add: P_def H0)
  show ?thesis
  proof (cases "snd P")
    case None
    have r: "r = snd (admit env (fst P))" and s: "s = snd (leave (admit env (fst P)))"
      using eq None by (simp_all add: prod_eq_iff)
    have sb: "sandbox (H (fst P)) \<noteq> None"
      using prepare_done[of env s0] None by (simp add: P_def)
    have lp: "lastPull (H (fst P)) \<noteq> None"
    proof (cases "sandbox h")
      case None
      then show ?thesis using prepare_lastPull[of s0 env] sb by (simp add: P_def H0)
    next
      case (Some a)
      then have "lastPull h \<noteq> None" using inv by (simp add: handler_inv_def)
      then show ?thesis using prepare_existing[of s0 env] Some by (simp add: P_def H0)
    qed
    show ?thesis
      using inv sb lp run0 by (auto simp: s r handler_inv_def)
  next
    case (Some x)
    have r: "r = x" and s: "s = snd (leave (fst P, x))"
      using eq Some by (simp_all add: prod_eq_iff)
    have q: "\<not> is_channel x"
      using prepare_quiet[of env s0] Some
      by (cases x rule: is_channel.cases) (auto simp: P_def quiet_def)
    show ?thesis
    proof (cases "sandbox h")
      case None
      have "sandbox (H (fst P)) = None \<Longrightarrow> state (H (fst P)) = Unitialized"
        using prepare_none[of env s0] inv None by (simp add: P_def H0 handler_inv_def)
      moreover have "sandbox (H (fst P)) \<noteq> None \<Longrightarrow> lastPull (H (fst P)) \<noteq> None"
        using prepare_lastPull[of s0 env] None by (simp add: P_def H0)
      moreover have "runners (H (fst P)) = 0" "n = 0"
        using inv None run0 by (simp_all add: handler_inv_def)
      ultimately show ?thesis
        using q by (auto simp: s r handler_inv_def)
    next
      case (Some a)
      then have "lastPull h \<noteq> None" using inv by (simp add: handler_inv_def)
      then have "H (fst P) = h\<lparr>mutex := True\<rparr>"
        using prepare_existing[of s0 env] Some by (simp add: P_def H0)
      then show ?thesis
        using q inv by (auto simp: s r handler_inv_def)
    qed
  qed
qed

lemma RunFinish_inv:
  assumes inv: "handler_inv h n" and pos: "0 < n" and run: "RunFinish pz hs h = (r, s)"
  shows "handler_inv (H s) (if r = Returns () then n - 1 else n)"
proof -
  have "r = fst (RunFinish pz hs h)" "s = snd (RunFinish pz hs h)" using run by simp_all
  moreover have "sandbox h \<noteq> None" "0 < runners h" "state h = Running"
    using inv pos by (auto simp: handler_inv_def)
  ultimately show ?thesis
    using inv pos
    by (auto simp: RunFinish_def Let_def emit_simps handler_inv_def split: option.splits)
qed

lemma run_ops_inv:
  "handler_inv h n \<Longrightarrow> run_ops ops (h, hs, n) = Some (h', hs', n') \<Longrightarrow> handler_inv h' n'"
proof (induction ops arbitrary: h hs n)
  case Nil
  then show ?case by simp
next
  case (Cons a ops)
  show ?case
  proof (cases a)
    case (Start env)
    obtain r s where rs: "RunStart env hs h = (r, s)" by (cases "RunStart env hs h")
    from Cons.prems(2) have "run_ops ops (H s, HS s, if is_channel r then Suc n else n) = Some (h', hs', n')"
      by (simp add: Start rs)
    from Cons.IH[OF RunStart_inv[OF Cons.prems(1) rs] this] show ?thesis .
  next
    case (Finish pz)
    obtain r s where rs: "RunFinish pz hs h = (r, s)" by (cases "RunFinish pz hs h")
    from Cons.prems(2) have pos: "0 < n"
      by (simp add: Finish split: if_splits)
    with Cons.prems(2) have "run_ops ops (H s, HS s, if r = Returns () then n - 1 else n) = Some (h', hs', n')"
      by (simp add: Finish rs)
    from Cons.IH[OF RunFinish_inv[OF Cons.prems(1) pos rs] this] show ?thesis .
  qed
qed

lemma new_handler_inv: "handler_inv (new_handler nm dir) 0"
  by (simp add: handler_inv_def new_handler_def)


section \<open>A first call and its finish, evaluated\<close>

text \<open>The definitions a concrete call is evaluated with.\<close>

lemmas rs_defs = RunStart_def prepare_def leave_def and_then_def get_code_def ensure_sandbox_def
  create_sandbox_def let_it_run_def provision_def count_hit_def unpause_existing_def
  hit_existing_def admit_def unlock_handler_def passes_def fails_def emit_def deadline_ns_def

lemma ex_first_start:
  "RunStart ex_env ex_hset ex_fresh =
     (Returns (Inr (SandboxChannel 1)),
      \<lparr>H = ex_running, HS = ex_hset\<lparr>misses := 1\<rparr>,
       trace = [Lock (HandlerMutex ''f''), Pull ''f'', Time_Now, MkdirAll ''/w/handlers/f/sandbox'',
                Create ''/registry/f'' ''/w/handlers/f/sandbox'' ''mirror'', Sb_State 1, Sb_Start 1,
                AddInt64 Misses, Time_Now, Stat ''/w/handlers/f/sandbox/ol.sock'', Time_Since,
                Stat ''/w/handlers/f/sandbox/ol.sock'', Time_Since,
                Log_Printf ''handler hits: %v, import hits: %v, misses: %v'', Sb_Channel 1,
                Unlock (HandlerMutex ''f'')]\<rparr>)"
  by (simp add: rs_defs ex_env_def ex_hset_def ex_fresh_def ex_running_def new_handler_def)

lemma ex_finish:
  "RunFinish (\<lambda>sb. None) (ex_hset\<lparr>misses := 1\<rparr>) ex_running =
     (Returns (),
      \<lparr>H = ex_paused, HS = ex_hset\<lparr>misses := 1\<rparr>,
       trace = [Lock (HandlerMutex ''f''), Sb_Pause 1, Lru_Add ''f'', Unlock (HandlerMutex ''f'')]\<rparr>)"
  by (simp add: RunFinish_def leave_def unlock_handler_def emit_def ex_paused_def ex_running_def ex_hset_def)

lemma ex_run:
  "run_ops [Start ex_env, Finish (\<lambda>sb. None)] (ex_fresh, ex_hset, 0) =
     Some (ex_paused, ex_hset\<lparr>misses := 1\<rparr>, 0)"
  by (simp add: ex_first_start ex_finish)


section \<open>What a call leaves alone in the HandlerSet\<close>

lemma unpause_existing_HS_keeps [simp]:
  "set_mutex (HS (fst (unpause_existing env sb s))) = set_mutex (HS s)"
  "handlers (HS (fst (unpause_existing env sb s))) = handlers (HS s)"
  "poolMgr (HS (fst (unpause_existing env sb s))) = poolMgr (HS s)"
  by (simp_all add: unpause_existing_def Let_def emit_simps split: option.split)

lemma hit_existing_HS_keeps [simp]:
  "set_mutex (HS (fst (hit_existing s))) = set_mutex (HS s)"
  "handlers (HS (fst (hit_existing s))) = handlers (HS s)"
  "poolMgr (HS (fst (hit_existing s))) = poolMgr (HS s)"
  by (simp_all add: hit_existing_def emit_simps)

lemma ensure_sandbox_HS_keeps [simp]:
  "set_mutex (HS (fst (ensure_sandbox env s))) = set_mutex (HS s)"
  "handlers (HS (fst (ensure_sandbox env s))) = handlers (HS s)"
  "poolMgr (HS (fst (ensure_sandbox env s))) = poolMgr (HS s)"
  by (simp_all add: ensure_sandbox_def split: option.split)

lemma prepare_HS_keeps [simp]:
  "set_mutex (HS (fst (prepare env s))) = set_mutex (HS s)"
  "handlers (HS (fst (prepare env s))) = handlers (HS s)"
  "poolMgr (HS (fst (prepare env s))) = poolMgr (HS s)"
  by (simp_all add: prepare_def and_then_if)

lemma admit_HS [simp]: "HS (fst (admit env s)) = HS s"
  by (simp add: admit_def Let_def emit_simps split: option.split)

lemma RunStart_HS_keeps [simp]:
  "set_mutex (HS (snd (RunStart env hs h))) = set_mutex hs"
  "handlers (HS (snd (RunStart env hs h))) = handlers hs"
  "poolMgr (HS (snd (RunStart env hs h))) = poolMgr hs"
  by (cases "mutex h"; simp add: RunStart_locked RunStart_unfold Let_def split: option.split)+

lemma RunStart_name [simp]: "name (H (snd (RunStart env hs h))) = name h"
  by (cases "mutex h"; simp add: RunStart_locked RunStart_unfold Let_def split: option.split)

lemma RunFinish_HS [simp]: "HS (snd (RunFinish pz hs h)) = hs"
  by (simp add: RunFinish_def Let_def emit_simps split: option.split)

lemma RunFinish_name [simp]: "name (H (snd (RunFinish pz hs h))) = name h"
  by (simp add: RunFinish_def Let_def emit_simps split: option.split)


section \<open>The registry\<close>

lemma same_objects_refl [simp]: "same_objects w w"
  by (simp add: same_objects_def)


lemma same_objects_hset [simp]: "same_objects w (w'\<lparr>hset := x\<rparr>) = same_objects w w'"
  "same_objects (w\<lparr>hset := x\<rparr>) w' = same_objects w w'"
  by (simp_all add: same_objects_def)

lemma same_objects_upd:
  "heap w p = Some h \<Longrightarrow> name h' = name h \<Longrightarrow> same_objects w (w\<lparr>heap := (heap w)(p := Some h')\<rparr>)"
  by (simp add: same_objects_def)


lemma scan_handlers_locked:
  "set_mutex (hset w) \<Longrightarrow>
   hset (fst (snd (scan_handlers ks w tr))) = hset w \<and>
   same_objects w (fst (snd (scan_handlers ks w tr)))"
proof (induction ks arbitrary: w tr)
  case Nil
  then show ?case by simp
next
  case (Cons k ks)
  show ?case
  proof (cases "handlers (hset w) k")
    case None
    then show ?thesis using Cons by simp
  next
    case (Some v)
    show ?thesis
    proof (cases v)
      case None
      then show ?thesis using Some by simp
    next
      case p: (Some p)
      show ?thesis
      proof (cases "heap w p")
        case None
        then show ?thesis using Some p by simp
      next
        case h: (Some handler)
        show ?thesis
          using Some p h Cons
          by (simp add: same_objects_upd)
      qed
    qed
  qed
qed




lemma wf_world_set_mutex [simp]:
  "wf_world (w\<lparr>hset := (hset w)\<lparr>set_mutex := b\<rparr>\<rparr>) = wf_world w"
  by (simp add: wf_world_def)












section \<open>The readiness loop\<close>







section \<open>The creation path up to the wait\<close>



section \<open>The path polled\<close>







section \<open>Entries of the registry stay\<close>







section \<open>Sleeping and unlocking\<close>

lemma no_sleep_emit [simp]:
  "no_sleep (trace (emit e s)) \<longleftrightarrow> no_sleep (trace s) \<and> (\<forall>n. e \<noteq> Time_Sleep n)"
  by (auto simp: no_sleep_def emit_def)

lemma no_sleep_upd [simp]:
  "trace (s\<lparr>H := x\<rparr>) = trace s" "trace (s\<lparr>HS := y\<rparr>) = trace s"
  by simp_all

lemma wait_for_sock_no_sleep:
  "no_sleep (trace s) \<Longrightarrow> no_sleep (trace (fst (wait_for_sock p obs s)))"
  by (induction p obs s rule: wait_for_sock.induct) (simp_all add: Let_def)

lemma get_code_no_sleep:
  "no_sleep (trace s) \<Longrightarrow> no_sleep (trace (fst (get_code env s)))"
  by (simp add: get_code_def Let_def split: sum.split prod.split)

lemma let_it_run_no_sleep:
  "no_sleep (trace s) \<Longrightarrow> no_sleep (trace (fst (let_it_run env sb s)))"
  by (simp add: let_it_run_def split: option.split)

lemma provision_no_sleep:
  "no_sleep (trace s) \<Longrightarrow> no_sleep (trace (fst (provision env sb s)))"
  by (simp add: provision_def count_hit_def Let_def split: option.split prod.split)

lemma create_sandbox_no_sleep:
  "no_sleep (trace s) \<Longrightarrow> no_sleep (trace (fst (create_sandbox env s)))"
  by (simp add: create_sandbox_def and_then_if Let_def wait_for_sock_no_sleep let_it_run_no_sleep
      provision_no_sleep split: option.split sum.split prod.split)

lemma ensure_sandbox_no_sleep:
  "no_sleep (trace s) \<Longrightarrow> no_sleep (trace (fst (ensure_sandbox env s)))"
  by (simp add: ensure_sandbox_def unpause_existing_def hit_existing_def Let_def
      create_sandbox_no_sleep split: option.split)

lemma prepare_no_sleep:
  "no_sleep (trace s) \<Longrightarrow> no_sleep (trace (fst (prepare env s)))"
  by (simp add: prepare_def and_then_if get_code_no_sleep ensure_sandbox_no_sleep)

lemma admit_no_sleep:
  "no_sleep (trace s) \<Longrightarrow> no_sleep (trace (fst (admit env s)))"
  by (simp add: admit_def Let_def split: option.split)

lemma leave_no_sleep:
  "no_sleep (trace (fst p)) \<Longrightarrow> no_sleep (trace (snd (leave p)))"
  by (cases p) (simp add: leave_def unlock_handler_def split: outcome.split)

lemma RunStart_never_sleeps: "no_sleep (trace (snd (RunStart env hs h)))"
proof (cases "mutex h")
  case True
  then show ?thesis by (simp add: RunStart_locked no_sleep_def)
next
  case False
  have "no_sleep (trace \<lparr>H = h\<lparr>mutex := True\<rparr>, HS = hs, trace = [Lock (HandlerMutex (name h))]\<rparr>)"
    by (simp add: no_sleep_def)
  from prepare_no_sleep[OF this, of env] show ?thesis
    by (simp add: RunStart_unfold[OF False] Let_def leave_no_sleep admit_no_sleep
        split: option.split)
qed

lemma scan_handlers_never_unlocks:
  "set_mutex (hset w) \<Longrightarrow> Unlock RegistryMutex \<notin> set tr \<Longrightarrow>
   Unlock RegistryMutex \<notin> set (snd (snd (scan_handlers ks w tr)))"
proof (induction ks arbitrary: tr)
  case Nil
  then show ?case by simp
next
  case (Cons k ks)
  show ?case
  proof (cases "handlers (hset w) k")
    case None
    then show ?thesis using Cons by simp
  next
    case (Some v)
    show ?thesis
    proof (cases v)
      case None
      then show ?thesis using Some Cons.prems by simp
    next
      case p: (Some p)
      show ?thesis
      proof (cases "heap w p")
        case None
        then show ?thesis using Some p Cons.prems by simp
      next
        case h: (Some handler)
        show ?thesis
          using Some p h Cons by simp
      qed
    qed
  qed
qed

lemma killOrphans_never_unlocks:
  "Unlock RegistryMutex \<notin> set tr \<Longrightarrow>
   Unlock RegistryMutex \<notin> set (snd (snd (killOrphans orders w tr)))"
proof (induction orders arbitrary: w tr)
  case Nil
  then show ?case by simp
next
  case (Cons order later)
  show ?case
  proof (cases "set_mutex (hset w)")
    case True
    then show ?thesis using Cons.prems by simp
  next
    case False
    define w0 where "w0 = w\<lparr>hset := (hset w)\<lparr>set_mutex := True\<rparr>\<rparr>"
    define R where "R = scan_handlers order w0 (tr @ [Time_Sleep 5, Lock RegistryMutex])"
    have l: "set_mutex (hset w0)" by (simp add: w0_def)
    have n: "Unlock RegistryMutex \<notin> set (snd (snd R))"
      using scan_handlers_never_unlocks[OF l, of "tr @ [Time_Sleep 5, Lock RegistryMutex]" order]
        Cons.prems by (simp add: R_def)
    have e: "killOrphans (order # later) w tr =
               (if fst R = Scanning then killOrphans later (fst (snd R)) (snd (snd R)) else R)"
      using False by (cases R; cases "fst R"; simp add: R_def w0_def)
    show ?thesis
      using e n Cons.IH[OF n] by simp
  qed
qed

lemma killOrphans_second_scan_blocks:
  "fst (killOrphans (order # order' # later) w tr) \<noteq> Scanning"
proof (cases "set_mutex (hset w)")
  case True
  then show ?thesis by simp
next
  case False
  define w0 where "w0 = w\<lparr>hset := (hset w)\<lparr>set_mutex := True\<rparr>\<rparr>"
  define R where "R = scan_handlers order w0 (tr @ [Time_Sleep 5, Lock RegistryMutex])"
  have l: "set_mutex (hset w0)" by (simp add: w0_def)
  have a: "set_mutex (hset (fst (snd R)))"
    using scan_handlers_locked[OF l, of order] l by (simp add: R_def)
  have e: "killOrphans (order # order' # later) w tr =
             (if fst R = Scanning then killOrphans (order' # later) (fst (snd R)) (snd (snd R)) else R)"
    using False by (cases R; cases "fst R"; simp add: R_def w0_def)
  show ?thesis using e a by simp
qed


section \<open>The examples, evaluated\<close>





lemma ex_reaper_idle:
  "killOrphans [[], []] ex_world0 [] =
     (Blocked RegistryMutex, ex_world0\<lparr>hset := (hset ex_world0)\<lparr>set_mutex := True\<rparr>\<rparr>,
      [Time_Sleep 5, Lock RegistryMutex, Time_Sleep 5, Lock RegistryMutex])"
  by (simp add: ex_world0_def)

lemma ex_reaper_orphan:
  "killOrphans [[''f'']] ex_world_orphan [] =
     (Blocked RegistryMutex,
      ex_world_orphan\<lparr>hset := (hset ex_world_orphan)\<lparr>set_mutex := True\<rparr>,
                      heap := (\<lambda>p. None)(0 := Some (ex_orphan\<lparr>mutex := True\<rparr>))\<rparr>,
      [Time_Sleep 5, Lock RegistryMutex, Lock (HandlerMutex ''f''), Lock RegistryMutex])"
  by (simp add: ex_world_orphan_def ex_orphan_def)


section \<open>The claims\<close>




text \<open>
  Claim C4. \<open>RunFinish\<close>, entered with the Handler's mutex free and a sandbox in place,
  returns and lowers \<open>runners\<close> by one. When that makes it zero, the call pauses the
  sandbox, logs a failure of \<open>Pause\<close> without passing it on, sets the state to Paused and,
  last before unlocking, hands the Handler to \<open>lru.Add\<close> (which, by its contract, makes it
  the most recently used entry). Otherwise no other field changes and no collaborator is
  called.
\<close>

theorem RunFinish_effect:
  assumes "\<not> mutex h" and "sandbox h = Some sb"
  shows "fst (RunFinish pz hs h) = Returns () \<and>
         runners (H (snd (RunFinish pz hs h))) = runners h - 1 \<and>
         HS (snd (RunFinish pz hs h)) = hs \<and>
         (if runners h - 1 = 0
          then H (snd (RunFinish pz hs h)) = h\<lparr>runners := 0, state := Paused\<rparr> \<and>
               trace (snd (RunFinish pz hs h)) =
                 [Lock (HandlerMutex (name h)), Sb_Pause (sb_id sb)] @
                 (case pz sb of
                    None \<Rightarrow> []
                  | Some e \<Rightarrow> [Log_Printf ''Could not pause %v!  Error: %v'']) @
                 [Lru_Add (name h), Unlock (HandlerMutex (name h))]
          else H (snd (RunFinish pz hs h)) = h\<lparr>runners := runners h - 1\<rparr> \<and>
               trace (snd (RunFinish pz hs h)) =
                 [Lock (HandlerMutex (name h)), Unlock (HandlerMutex (name h))])"
  using assms
  by (cases "pz sb")
     (simp_all add: RunFinish_def Let_def leave_def unlock_handler_def emit_def)

theorem RunFinish_effect_witness:
  "\<not> mutex ex_running \<and> sandbox ex_running = Some (Sandbox 1 True) \<and>
   fst (RunFinish (\<lambda>sb. Some ''frozen'') ex_hset ex_running) = Returns () \<and>
   runners (H (snd (RunFinish (\<lambda>sb. Some ''frozen'') ex_hset ex_running))) = 0 \<and>
   state (H (snd (RunFinish (\<lambda>sb. Some ''frozen'') ex_hset ex_running))) = Paused \<and>
   trace (snd (RunFinish (\<lambda>sb. Some ''frozen'') ex_hset ex_running)) =
     [Lock (HandlerMutex ''f''), Sb_Pause 1, Log_Printf ''Could not pause %v!  Error: %v'',
      Lru_Add ''f'', Unlock (HandlerMutex ''f'')]"
proof -
  have a: "\<not> mutex ex_running" and b: "sandbox ex_running = Some (Sandbox 1 True)"
    by (simp_all add: ex_running_def)
  from RunFinish_effect[OF a b, of "\<lambda>sb. Some ''frozen''" ex_hset] a b
  show ?thesis by (simp add: ex_running_def)
qed



text \<open>
  Claim C2. Take a Handler reached from its creation by any well-formed sequence of calls,
  with a sandbox and in state Paused. \<open>RunStart\<close> on it calls neither the registry nor the
  sandbox factory: it raises the handler-hit counter, calls \<open>Unpause\<close> on the sandbox it
  has and, when that succeeds, removes the Handler from the LRU, and only then admits the
  request. When \<open>Unpause\<close> fails the error is returned and the Handler is left as it was.
\<close>

theorem RunStart_paused:
  assumes reach: "run_ops ops (new_handler nm dir, hs0, 0) = Some (h, hs1, n)"
    and sb: "sandbox h = Some sb" and paused: "state h = Paused" and free: "\<not> mutex h"
  shows "trace (snd (RunStart env hs h)) =
           [Lock (HandlerMutex (name h)), AddInt64 Hhits, Sb_Unpause (sb_id sb)] @
           (case sb_Unpause env sb of
              Some e \<Rightarrow> []
            | None \<Rightarrow> [Lru_Remove (name h),
                       Log_Printf ''handler hits: %v, import hits: %v, misses: %v'',
                       Sb_Channel (sb_id sb)]) @
           [Unlock (HandlerMutex (name h))] \<and>
         HS (snd (RunStart env hs h)) = hs\<lparr>hhits := hhits hs + 1\<rparr> \<and>
         (case sb_Unpause env sb of
            Some e \<Rightarrow> fst (RunStart env hs h) = Returns (Inl (External e)) \<and>
                      H (snd (RunStart env hs h)) = h
          | None \<Rightarrow> fst (RunStart env hs h) =
                      Returns (case sb_Channel env sb of Inl e \<Rightarrow> Inl (External e) | Inr ch \<Rightarrow> Inr ch) \<and>
                    H (snd (RunStart env hs h)) = h\<lparr>state := Running, runners := runners h + 1\<rparr>)"
proof -
  have "handler_inv h n"
    using run_ops_inv[OF new_handler_inv reach] .
  then have lp: "lastPull h \<noteq> None"
    using sb by (simp add: handler_inv_def)
  show ?thesis
    using lp sb paused free
    by (cases "sb_Unpause env sb")
       (auto simp: RunStart_def prepare_def and_then_def get_code_def ensure_sandbox_def
          unpause_existing_def admit_def leave_def unlock_handler_def passes_def emit_def Let_def)
qed

theorem RunStart_paused_witness:
  "run_ops [Start ex_env, Finish (\<lambda>sb. None)] (new_handler ''f'' ''/w/handlers/f/sandbox'', ex_hset, 0) =
     Some (ex_paused, ex_hset\<lparr>misses := 1\<rparr>, 0) \<and>
   sandbox ex_paused = Some (Sandbox 1 True) \<and> state ex_paused = Paused \<and> \<not> mutex ex_paused \<and>
   trace (snd (RunStart ex_env ex_hset ex_paused)) =
     [Lock (HandlerMutex ''f''), AddInt64 Hhits, Sb_Unpause 1, Lru_Remove ''f'',
      Log_Printf ''handler hits: %v, import hits: %v, misses: %v'', Sb_Channel 1,
      Unlock (HandlerMutex ''f'')] \<and>
   hhits (HS (snd (RunStart ex_env ex_hset ex_paused))) = 1 \<and>
   fst (RunStart ex_env ex_hset ex_paused) = Returns (Inr (SandboxChannel 1)) \<and>
   H (snd (RunStart ex_env ex_hset ex_paused)) = ex_running"
proof -
  have a: "run_ops [Start ex_env, Finish (\<lambda>sb. None)] (new_handler ''f'' ''/w/handlers/f/sandbox'', ex_hset, 0) =
     Some (ex_paused, ex_hset\<lparr>misses := 1\<rparr>, 0)"
    using ex_run by (simp add: ex_fresh_def)
  have b: "sandbox ex_paused = Some (Sandbox 1 True)" and c: "state ex_paused = Paused"
    and d: "\<not> mutex ex_paused"
    by (simp_all add: ex_paused_def ex_running_def)
  from RunStart_paused[OF a b c d, of ex_env ex_hset] a b c d show ?thesis
    by (simp add: ex_env_def ex_hset_def ex_paused_def ex_running_def)
qed





text \<open>
  Claim C8. When the pull that \<open>RunStart\<close> makes fails, the call returns that error having
  called nothing else, and leaves the Handler (\<open>lastPull\<close> unset) and the counters as they
  were. When the pull is not needed or succeeds and then \<open>os.MkdirAll\<close> or the factory's
  \<open>Create\<close> fails, the call returns that error, no sandbox is recorded or asked for its
  state, and the Handler stays Unitialized and unlocked, changed by the fetched code at
  most: the next \<open>RunStart\<close> finds it as a first call does.
\<close>

theorem RunStart_setup_errors:
  assumes free: "\<not> mutex h"
  shows "(lastPull h = None \<and> regMgr_Pull env (name h) = Inl e \<longrightarrow>
            RunStart env hs h =
              (Returns (Inl (External e)),
               \<lparr>H = h, HS = hs,
                trace = [Lock (HandlerMutex (name h)), Pull (name h),
                         Unlock (HandlerMutex (name h))]\<rparr>)) \<and>
         (sandbox h = None \<and> state h = Unitialized \<and>
          (lastPull h = None \<longrightarrow> regMgr_Pull env (name h) = Inr (cd, ps)) \<and>
          (os_MkdirAll env (sandboxDir h) = Some e \<or>
           os_MkdirAll env (sandboxDir h) = None \<and>
           sbFactory_Create env (if lastPull h = None then cd else codeDir h)
             (sandboxDir h) (pipMirror hs) = Inl e) \<longrightarrow>
            fst (RunStart env hs h) = Returns (Inl (External e)) \<and>
            HS (snd (RunStart env hs h)) = hs \<and>
            H (snd (RunStart env hs h)) =
              (if lastPull h = None
               then h\<lparr>lastPull := Some (time_Now env), codeDir := cd, pkgs := ps\<rparr>
               else h) \<and>
            sandbox (H (snd (RunStart env hs h))) = None \<and>
            state (H (snd (RunStart env hs h))) = Unitialized \<and>
            \<not> mutex (H (snd (RunStart env hs h))) \<and>
            Sb_State (sb_id sb) \<notin> set (trace (snd (RunStart env hs h))))"
proof (intro conjI impI)
  assume "lastPull h = None \<and> regMgr_Pull env (name h) = Inl e"
  with free show "RunStart env hs h =
              (Returns (Inl (External e)),
               \<lparr>H = h, HS = hs,
                trace = [Lock (HandlerMutex (name h)), Pull (name h),
                         Unlock (HandlerMutex (name h))]\<rparr>)"
    by (simp add: RunStart_def prepare_def and_then_def get_code_def leave_def unlock_handler_def
        passes_def emit_def)
next
  assume a: "sandbox h = None \<and> state h = Unitialized \<and>
          (lastPull h = None \<longrightarrow> regMgr_Pull env (name h) = Inr (cd, ps)) \<and>
          (os_MkdirAll env (sandboxDir h) = Some e \<or>
           os_MkdirAll env (sandboxDir h) = None \<and>
           sbFactory_Create env (if lastPull h = None then cd else codeDir h)
             (sandboxDir h) (pipMirror hs) = Inl e)"
  have "fst (RunStart env hs h) = Returns (Inl (External e)) \<and>
            HS (snd (RunStart env hs h)) = hs \<and>
            H (snd (RunStart env hs h)) =
              (if lastPull h = None
               then h\<lparr>lastPull := Some (time_Now env), codeDir := cd, pkgs := ps\<rparr>
               else h) \<and>
            Sb_State (sb_id sb) \<notin> set (trace (snd (RunStart env hs h)))"
    using free a
    by (cases "lastPull h")
       (auto simp: RunStart_def prepare_def and_then_def get_code_def ensure_sandbox_def
          create_sandbox_def leave_def unlock_handler_def passes_def emit_def Let_def)
  then show "fst (RunStart env hs h) = Returns (Inl (External e))"
    and "HS (snd (RunStart env hs h)) = hs"
    and "H (snd (RunStart env hs h)) =
              (if lastPull h = None
               then h\<lparr>lastPull := Some (time_Now env), codeDir := cd, pkgs := ps\<rparr>
               else h)"
    and "Sb_State (sb_id sb) \<notin> set (trace (snd (RunStart env hs h)))"
    by blast+
  then show "sandbox (H (snd (RunStart env hs h))) = None"
    and "state (H (snd (RunStart env hs h))) = Unitialized"
    and "\<not> mutex (H (snd (RunStart env hs h)))"
    using a free by auto
qed

theorem RunStart_setup_errors_witness:
  "\<not> mutex ex_fresh \<and> lastPull ex_fresh = None \<and>
   regMgr_Pull ex_env_nopull (name ex_fresh) = Inl ''no such lambda'' \<and>
   RunStart ex_env_nopull ex_hset ex_fresh =
     (Returns (Inl (External ''no such lambda'')),
      \<lparr>H = ex_fresh, HS = ex_hset,
       trace = [Lock (HandlerMutex ''f''), Pull ''f'', Unlock (HandlerMutex ''f'')]\<rparr>) \<and>
   sandbox ex_fresh = None \<and> state ex_fresh = Unitialized \<and>
   regMgr_Pull ex_env_nocreate (name ex_fresh) = Inr (''/registry/f'', []) \<and>
   os_MkdirAll ex_env_nocreate (sandboxDir ex_fresh) = None \<and>
   sbFactory_Create ex_env_nocreate ''/registry/f'' (sandboxDir ex_fresh) (pipMirror ex_hset) =
     Inl ''no docker'' \<and>
   fst (RunStart ex_env_nocreate ex_hset ex_fresh) = Returns (Inl (External ''no docker'')) \<and>
   H (snd (RunStart ex_env_nocreate ex_hset ex_fresh)) =
     ex_fresh\<lparr>lastPull := Some 7, codeDir := ''/registry/f'', pkgs := []\<rparr> \<and>
   fst (RunStart ex_env ex_hset (H (snd (RunStart ex_env_nocreate ex_hset ex_fresh)))) =
     Returns (Inr (SandboxChannel 1))"
proof -
  have free: "\<not> mutex ex_fresh" and lp: "lastPull ex_fresh = None"
    and nosb: "sandbox ex_fresh = None" and un: "state ex_fresh = Unitialized"
    by (simp_all add: ex_fresh_def new_handler_def)
  have p1: "regMgr_Pull ex_env_nopull (name ex_fresh) = Inl ''no such lambda''"
    by (simp add: ex_env_nopull_def ex_env_def)
  have p2: "regMgr_Pull ex_env_nocreate (name ex_fresh) = Inr (''/registry/f'', [])"
    and mk: "os_MkdirAll ex_env_nocreate (sandboxDir ex_fresh) = None"
    and cr: "sbFactory_Create ex_env_nocreate ''/registry/f'' (sandboxDir ex_fresh)
               (pipMirror ex_hset) = Inl ''no docker''"
    by (simp_all add: ex_env_nocreate_def ex_env_def ex_fresh_def new_handler_def)
  have one: "RunStart ex_env_nopull ex_hset ex_fresh =
     (Returns (Inl (External ''no such lambda'')),
      \<lparr>H = ex_fresh, HS = ex_hset,
       trace = [Lock (HandlerMutex ''f''), Pull ''f'', Unlock (HandlerMutex ''f'')]\<rparr>)"
    using RunStart_setup_errors[OF free, of ex_env_nopull "''no such lambda''" ex_hset] lp p1
    by (simp add: ex_fresh_def new_handler_def)
  have two: "fst (RunStart ex_env_nocreate ex_hset ex_fresh) = Returns (Inl (External ''no docker'')) \<and>
     H (snd (RunStart ex_env_nocreate ex_hset ex_fresh)) =
       ex_fresh\<lparr>lastPull := Some 7, codeDir := ''/registry/f'', pkgs := []\<rparr>"
    using RunStart_setup_errors[OF free, of ex_env_nocreate "''no docker''" ex_hset "''/registry/f''" "[]"]
      lp nosb un p2 mk cr
    by (simp add: ex_env_nocreate_def ex_env_def)
  have three: "fst (RunStart ex_env ex_hset
                 (ex_fresh\<lparr>lastPull := Some 7, codeDir := ''/registry/f'', pkgs := []\<rparr>)) =
               Returns (Inr (SandboxChannel 1))"
    by (simp add: rs_defs ex_env_def ex_hset_def ex_fresh_def new_handler_def)
  from free lp p1 one nosb un p2 mk cr two three show ?thesis by simp
qed






text \<open>
  Claim C1 does not hold of the code. Whatever the registry holds and in whatever order
  the scans visit it, the reaper never unlocks the registry mutex (the deferred unlock of
  line 128 waits for a return that never comes), and it does not get through a second
  scan: it locks the registry mutex at line 127 of the first scan and stays inside
  \<open>Lock\<close> at line 127 of the second at the latest. With an orphan in the registry
  (\<open>ex_world_orphan\<close>) the first scan already calls \<open>Lock\<close> on the registry mutex while
  holding it (line 133) and stays there, holding the orphan's mutex as well.
\<close>

theorem reaper_keeps_registry_locked:
  "Unlock RegistryMutex \<notin> set (snd (snd (killOrphans orders w []))) \<and>
   fst (killOrphans (order # order' # later) w []) \<noteq> Scanning \<and>
   killOrphans [[], []] ex_world0 [] =
     (Blocked RegistryMutex, ex_world0\<lparr>hset := (hset ex_world0)\<lparr>set_mutex := True\<rparr>\<rparr>,
      [Time_Sleep 5, Lock RegistryMutex, Time_Sleep 5, Lock RegistryMutex]) \<and>
   killOrphans [[''f'']] ex_world_orphan [] =
     (Blocked RegistryMutex,
      ex_world_orphan\<lparr>hset := (hset ex_world_orphan)\<lparr>set_mutex := True\<rparr>,
                      heap := (\<lambda>p. None)(0 := Some (ex_orphan\<lparr>mutex := True\<rparr>))\<rparr>,
      [Time_Sleep 5, Lock RegistryMutex, Lock (HandlerMutex ''f''), Lock RegistryMutex])"
  using killOrphans_never_unlocks[of "[]" orders w] killOrphans_second_scan_blocks[of order order' later w "[]"]
    ex_reaper_idle ex_reaper_orphan
  by simp

text \<open>
  Claim C9 does not hold of the code in its first part. No call of \<open>RunStart\<close> ever sleeps:
  the turns of the readiness loop follow each other with nothing in between, as in the
  first \<open>RunStart\<close> of \<open>ex_fresh\<close>, where the marker is absent at the first stat and there at
  the second. (The reaper's loops do sleep between their turns, as the traces of claim C1
  show.) The second part holds: the loop reads no error before its first stat has set
  it, and the deadline test reads the clock only.
\<close>

theorem readiness_loop_spins:
  "no_sleep (trace (snd (RunStart env hs h))) \<and>
   polls ex_env = [(NotExist, 1000000), (StatOk, 2000000)] \<and>
   trace (snd (RunStart ex_env ex_hset ex_fresh)) =
     [Lock (HandlerMutex ''f''), Pull ''f'', Time_Now, MkdirAll ''/w/handlers/f/sandbox'',
      Create ''/registry/f'' ''/w/handlers/f/sandbox'' ''mirror'', Sb_State 1, Sb_Start 1,
      AddInt64 Misses, Time_Now, Stat ''/w/handlers/f/sandbox/ol.sock'', Time_Since,
      Stat ''/w/handlers/f/sandbox/ol.sock'', Time_Since,
      Log_Printf ''handler hits: %v, import hits: %v, misses: %v'', Sb_Channel 1,
      Unlock (HandlerMutex ''f'')]"
  using RunStart_never_sleeps[of env hs h]
  by (simp add: ex_first_start) (simp add: ex_env_def)

end
